theory Spec2Isabelle
  imports Complex_Main "HOL-Library.Sublist" "HOL-Library.Log_Nat"
begin

section \<open>Agent402 dashboard: the leaderboard and home pages\<close>

text \<open>
  A shallow embedding of \<^verbatim>\<open>src/frontend/src/app/leaderboard/page.tsx\<close> (the component
  \<^verbatim>\<open>LeaderboardPage\<close> and its helper \<^verbatim>\<open>ScoreBar\<close>) and of the derived quantities of
  \<^verbatim>\<open>src/frontend/src/app/page.tsx\<close> (the component \<^verbatim>\<open>Home\<close>).

  The React state of a component is a record; an effect and the settling of a fetch are
  functions from state to state. What a render shows is a function of the state that
  returns the data of the rendered elements (which rows, which segments with which width,
  which badges), not their markup.
\<close>

subsection \<open>JavaScript numbers\<close>

text \<open>
  A JavaScript number is modelled as a real or one of the three values that are not
  finite. A division by zero is visible in the model as a result that is not \<open>Fin\<close>.
  The operations of this subsection are exact: they do not round to a double. The
  rendering functions below use them. The subsection after it gives the operations with
  the rounding of doubles; the percentage is defined both ways (\<open>pct\<close> and \<open>pct64\<close>) and
  the two are compared in the properties.
\<close>

datatype jsnum = Fin real | PosInf | NegInf | NaN

text \<open>\<^verbatim>\<open>a / b\<close> for two finite numbers (the sign of a zero is not modelled).\<close>

definition js_div :: "real \<Rightarrow> real \<Rightarrow> jsnum" where
  "js_div a b =
     (if b = 0 then (if a = 0 then NaN else if 0 < a then PosInf else NegInf)
      else Fin (a / b))"

text \<open>\<^verbatim>\<open>x * 100\<close>.\<close>

fun js_times100 :: "jsnum \<Rightarrow> jsnum" where
  "js_times100 (Fin x) = Fin (x * 100)"
| "js_times100 PosInf = PosInf"
| "js_times100 NegInf = NegInf"
| "js_times100 NaN = NaN"

text \<open>\<^verbatim>\<open>Math.min(100, x)\<close>.\<close>

fun js_min100 :: "jsnum \<Rightarrow> jsnum" where
  "js_min100 (Fin x) = Fin (min 100 x)"
| "js_min100 PosInf = Fin 100"
| "js_min100 NegInf = NegInf"
| "js_min100 NaN = NaN"

text \<open>
  \<^verbatim>\<open>x.toFixed(1)\<close>, as the number its digits denote (which is what \<^verbatim>\<open>parseFloat\<close>
  reads back): the multiple of one tenth nearest to \<open>x\<close>, the one of larger magnitude on a
  tie. The strings \<^verbatim>\<open>"Infinity"\<close>, \<^verbatim>\<open>"-Infinity"\<close> and \<^verbatim>\<open>"NaN"\<close> of a value that is not
  finite are read back by \<^verbatim>\<open>parseFloat\<close> as that value.
\<close>

definition round_tenth :: "real \<Rightarrow> real" where
  "round_tenth x =
     (if x < 0 then - (of_int \<lfloor>(- x) * 10 + 1 / 2\<rfloor> / 10)
      else of_int \<lfloor>x * 10 + 1 / 2\<rfloor> / 10)"

fun toFixed1 :: "jsnum \<Rightarrow> jsnum" where
  "toFixed1 (Fin x) = Fin (round_tenth x)"
| "toFixed1 PosInf = PosInf"
| "toFixed1 NegInf = NegInf"
| "toFixed1 NaN = NaN"

subsection \<open>Double precision\<close>

text \<open>
  The result of an arithmetic operation is the double nearest to the exact result, the
  one with an even significand on a tie (IEEE 754 binary64, the only rounding JavaScript
  has). \<open>round_even\<close> rounds to the nearest integer, to the even one on a tie.
\<close>

definition round_even :: "real \<Rightarrow> int" where
  "round_even y =
     (let f = \<lfloor>y\<rfloor>; d = y - of_int f
      in if d < 1 / 2 then f else if 1 / 2 < d then f + 1 else if even f then f else f + 1)"

text \<open>
  The binary exponent of \<open>x \<noteq> 0\<close>: the \<open>e\<close> with \<open>2 powi e \<le> \<bar>x\<bar> < 2 powi (e + 1)\<close>,
  computed from the number of bits of the integer part of \<open>\<bar>x\<bar>\<close> or of \<open>1 / \<bar>x\<bar>\<close>.
\<close>

definition exponent :: "real \<Rightarrow> int" where
  "exponent x =
     (if 1 \<le> \<bar>x\<bar> then bitlen \<lfloor>\<bar>x\<bar>\<rfloor> - 1 else - bitlen (\<lceil>1 / \<bar>x\<bar>\<rceil> - 1))"

text \<open>
  The distance between neighbouring doubles around \<open>x\<close>: 52 binary places below the
  leading bit of \<open>x\<close>, and \<open>2 powi - 1074\<close> for the subnormal numbers.
\<close>

definition ulp :: "real \<Rightarrow> real" where
  "ulp x = 2 powi (max (exponent x) (- 1022) - 52)"

text \<open>
  The double a real is rounded to: the nearest multiple of \<open>ulp x\<close>, and an infinity when
  that multiple is beyond the largest double. The sign of a zero is not modelled.
\<close>

definition fl :: "real \<Rightarrow> jsnum" where
  "fl x =
     (if x = 0 then Fin 0
      else let r = of_int (round_even (x / ulp x)) * ulp x
           in if 2 ^ 1024 \<le> \<bar>r\<bar> then (if 0 < x then PosInf else NegInf) else Fin r)"

text \<open>\<^verbatim>\<open>a / b\<close> for two doubles, rounded.\<close>

definition div64 :: "real \<Rightarrow> real \<Rightarrow> jsnum" where
  "div64 a b =
     (if b = 0 then (if a = 0 then NaN else if 0 < a then PosInf else NegInf)
      else fl (a / b))"

text \<open>\<^verbatim>\<open>x * 100\<close>, rounded.\<close>

fun times100_64 :: "jsnum \<Rightarrow> jsnum" where
  "times100_64 (Fin x) = fl (x * 100)"
| "times100_64 PosInf = PosInf"
| "times100_64 NegInf = NegInf"
| "times100_64 NaN = NaN"

text \<open>
  \<^verbatim>\<open>parseFloat(x.toFixed(1))\<close> for a double: \<^verbatim>\<open>toFixed\<close> rounds the exact value of the
  double to one decimal, and \<^verbatim>\<open>parseFloat\<close> reads the digits back as the nearest double.
  From \<open>10 ^ 21\<close> on, \<^verbatim>\<open>toFixed\<close> prints the number itself.
\<close>

fun toFixed1_64 :: "jsnum \<Rightarrow> jsnum" where
  "toFixed1_64 (Fin x) = (if \<bar>x\<bar> < 10 ^ 21 then fl (round_tenth x) else Fin x)"
| "toFixed1_64 PosInf = PosInf"
| "toFixed1_64 NegInf = NegInf"
| "toFixed1_64 NaN = NaN"

subsection \<open>Data received from the API\<close>

text \<open>
  A JSON object with numeric values, as parsed: its keys in insertion order. A parsed
  object holds every key once.
\<close>

type_synonym dist = "(string \<times> int) list"

text \<open>
  Modelled from the spec: the type \<^verbatim>\<open>NetworkStats\<close> of \<^verbatim>\<open>@/lib/api\<close>, which is not among
  the source files (section 3 of the specification). The four distributions are optional
  because the components guard each access (\<^verbatim>\<open>stats?.tier_distribution && ...\<close>,
  \<^verbatim>\<open>stats?.chain_distribution?.[slug]\<close>).
\<close>

record NetworkStats =
  total_agents :: int
  avg_score :: real
  total_feedback :: int
  tier_distribution :: "dist option"
  chain_distribution :: "dist option"
  category_counts :: "dist option"
  protocol_counts :: "dist option"

text \<open>
  Modelled from the spec: the type \<^verbatim>\<open>TrustedAgent\<close> of \<^verbatim>\<open>@/lib/api\<close>, which is not among
  the source files (section 3 of the specification).
\<close>

record TrustedAgent =
  agent_id :: int
  agent_name :: "string option"
  agent_chain :: string
  agent_category :: "string option"
  agent_tier :: string
  composite_score :: real
  feedback_count :: int

text \<open>
  Modelled from the spec: the constant \<^verbatim>\<open>TIER_ORDER\<close> of \<^verbatim>\<open>@/lib/constants\<close>, which is not
  among the source files (section 4.4 of the specification, "Tier ordering"). The home
  page writes the same list out as a literal.
\<close>

definition TIER_ORDER :: "string list" where
  "TIER_ORDER = [''diamond'', ''platinum'', ''gold'', ''silver'', ''bronze'', ''unranked'']"

text \<open>\<^verbatim>\<open>obj[key] || 0\<close>: the count of a key, 0 when the key is absent.\<close>

definition count_of :: "dist \<Rightarrow> string \<Rightarrow> int" where
  "count_of d k = (case map_of d k of None \<Rightarrow> 0 | Some c \<Rightarrow> c)"

text \<open>\<^verbatim>\<open>stats?.field?.[key] || 0\<close>: as \<open>count_of\<close>, and 0 when the object is absent.\<close>

definition count_opt :: "dist option \<Rightarrow> string \<Rightarrow> int" where
  "count_opt d k = (case d of None \<Rightarrow> 0 | Some m \<Rightarrow> count_of m k)"

subsection \<open>The listing fetch of the leaderboard\<close>

text \<open>
  What a fetch can settle with: a rejection (the network failed), or a response with a
  status and a body. The body is what \<^verbatim>\<open>r.json()\<close> would give: an array, another JSON
  value, or a rejection when the body is not JSON.
\<close>

datatype body = JsonArray "TrustedAgent list" | JsonOther | NotJson

datatype response = NetworkFailure | Http nat body

text \<open>\<^verbatim>\<open>r.ok\<close>: the status is in the range 200 to 299.\<close>

definition ok :: "nat \<Rightarrow> bool" where
  "ok status = (200 \<le> status \<and> status \<le> 299)"

text \<open>The parameters of a query string, in order.\<close>

type_synonym query = "(string \<times> string) list"

text \<open>
  \<^verbatim>\<open>URLSearchParams.set\<close>: the first pair of the name takes the value and the later
  pairs of the name are removed; a name that is absent is appended.
\<close>

definition params_set :: "query \<Rightarrow> string \<Rightarrow> string \<Rightarrow> query" where
  "params_set ps k v =
     (if k \<in> fst ` set ps
      then takeWhile (\<lambda>p. fst p \<noteq> k) ps @ [(k, v)] @
           filter (\<lambda>p. fst p \<noteq> k) (tl (dropWhile (\<lambda>p. fst p \<noteq> k) ps))
      else ps @ [(k, v)])"

text \<open>
  Lines 82 to 84: \<^verbatim>\<open>new URLSearchParams({ limit: "50" })\<close>, then the category and the
  chain are set when the string is truthy, that is, not empty.
\<close>

definition listing_params :: "string \<Rightarrow> string \<Rightarrow> query" where
  "listing_params cat ch =
     (let params = [(''limit'', ''50'')];
          params = (if cat \<noteq> [] then params_set params ''category'' cat else params);
          params = (if ch \<noteq> [] then params_set params ''chain'' ch else params)
      in params)"

text \<open>The requests a component sends: the statistics, or the listing with its query.\<close>

datatype request = GetStats | GetTop query

text \<open>
  The six state variables of \<^verbatim>\<open>LeaderboardPage\<close> (lines 66 to 71; \<open>chain_sel\<close> is the
  source's \<^verbatim>\<open>chain\<close>, \<open>error_msg\<close> its \<^verbatim>\<open>error\<close>), and the log of the requests the
  component has sent, oldest first.
\<close>

record leaderboard =
  agents :: "TrustedAgent list"
  stats :: "NetworkStats option"
  loading :: bool
  category :: string
  chain_sel :: string
  error_msg :: string
  sent :: "request list"

definition initial :: leaderboard where
  "initial = \<lparr>agents = [], stats = None, loading = True, category = [], chain_sel = [],
               error_msg = [], sent = []\<rparr>"

text \<open>
  The two messages. The first is \<^verbatim>\<open>"Paid endpoint \u2014 use x402 SDK"\<close>; the dash U+2014
  is written as the three bytes of its UTF-8 encoding.
\<close>

definition PAID_MESSAGE :: string where
  "PAID_MESSAGE = ''Paid endpoint '' @ [CHR 0xE2, CHR 0x80, CHR 0x94] @ '' use x402 SDK''"

definition FAILED_MESSAGE :: string where
  "FAILED_MESSAGE = ''Failed to load''"

text \<open>Lines 73 to 78: the effect that runs once, when the component is mounted.\<close>

definition stats_effect :: "leaderboard \<Rightarrow> leaderboard" where
  "stats_effect st = st\<lparr>sent := sent st @ [GetStats]\<rparr>"

text \<open>
  Lines 80 to 86: the effect that runs when the component is mounted and whenever
  \<^verbatim>\<open>category\<close> or \<^verbatim>\<open>chain\<close> has changed. It sets \<^verbatim>\<open>loading\<close> and sends the request.
\<close>

definition listing_effect :: "leaderboard \<Rightarrow> leaderboard" where
  "listing_effect st =
     st\<lparr>loading := True,
        sent := sent st @ [GetTop (listing_params (category st) (chain_sel st))]\<rparr>"

definition mount :: "leaderboard \<Rightarrow> leaderboard" where
  "mount st = listing_effect (stats_effect st)"

text \<open>
  Lines 165 and 191: a click on a filter button calls \<^verbatim>\<open>setChain\<close> or \<^verbatim>\<open>setCategory\<close>.
  React runs the listing effect again when the value differs from the one before, and
  does nothing when it is the same.
\<close>

definition setChain :: "string \<Rightarrow> leaderboard \<Rightarrow> leaderboard" where
  "setChain c st = (if c = chain_sel st then st else listing_effect (st\<lparr>chain_sel := c\<rparr>))"

definition setCategory :: "string \<Rightarrow> leaderboard \<Rightarrow> leaderboard" where
  "setCategory c st = (if c = category st then st else listing_effect (st\<lparr>category := c\<rparr>))"

text \<open>A promise that has settled: fulfilled with a value, or rejected.\<close>

datatype 'a settled = Fulfilled 'a | Rejected

text \<open>
  Lines 87 to 93, the first \<^verbatim>\<open>then\<close>: status 402 sets the message and gives the empty
  array; otherwise an ok response gives its parsed body (a rejection when it is not JSON)
  and any other response gives the empty array.
\<close>

definition on_response :: "nat \<Rightarrow> body \<Rightarrow> leaderboard \<Rightarrow> leaderboard \<times> body settled" where
  "on_response status b st =
     (if status = 402 then (st\<lparr>error_msg := PAID_MESSAGE\<rparr>, Fulfilled (JsonArray []))
      else if ok status then (st, case b of NotJson \<Rightarrow> Rejected | _ \<Rightarrow> Fulfilled b)
      else (st, Fulfilled (JsonArray [])))"

text \<open>Lines 94 to 96, the second \<^verbatim>\<open>then\<close>: \<^verbatim>\<open>if (Array.isArray(data)) setAgents(data)\<close>.\<close>

definition on_data :: "body \<Rightarrow> leaderboard \<Rightarrow> leaderboard" where
  "on_data d st = (case d of JsonArray rows \<Rightarrow> st\<lparr>agents := rows\<rparr> | _ \<Rightarrow> st)"

text \<open>Line 97: \<^verbatim>\<open>.catch(() => setError("Failed to load"))\<close>.\<close>

definition on_catch :: "leaderboard \<Rightarrow> leaderboard" where
  "on_catch st = st\<lparr>error_msg := FAILED_MESSAGE\<rparr>"

text \<open>Line 98: \<^verbatim>\<open>.finally(() => setLoading(false))\<close>.\<close>

definition on_finally :: "leaderboard \<Rightarrow> leaderboard" where
  "on_finally st = st\<lparr>loading := False\<rparr>"

text \<open>
  Lines 86 to 98: the whole chain, run when a listing fetch settles. The handlers read
  neither \<^verbatim>\<open>category\<close> nor \<^verbatim>\<open>chain\<close>, and nothing ties a response to the request it
  answers: the chain of an earlier request runs like that of the latest one.
\<close>

definition settle :: "response \<Rightarrow> leaderboard \<Rightarrow> leaderboard" where
  "settle r st =
     on_finally
       (case r of
          NetworkFailure \<Rightarrow> on_catch st
        | Http status b \<Rightarrow>
            (case on_response status b st of
               (st1, Fulfilled d) \<Rightarrow> on_data d st1
             | (st1, Rejected) \<Rightarrow> on_catch st1))"

text \<open>
  Lines 73 to 78 (and lines 94 to 98 of the home page): the statistics fetch. An ok
  response stores its parsed body, any other response stores \<^verbatim>\<open>null\<close>, and a rejection
  (of the fetch or of the parsing) is swallowed.
\<close>

datatype stats_body = StatsJson NetworkStats | StatsNotJson

datatype stats_response = StatsFailure | StatsHttp nat stats_body

definition settle_stats :: "stats_response \<Rightarrow> leaderboard \<Rightarrow> leaderboard" where
  "settle_stats r st =
     (case r of
        StatsFailure \<Rightarrow> st
      | StatsHttp status b \<Rightarrow>
          (if ok status then (case b of StatsJson s \<Rightarrow> st\<lparr>stats := Some s\<rparr> | StatsNotJson \<Rightarrow> st)
           else st\<lparr>stats := None\<rparr>))"

subsection \<open>What the leaderboard renders\<close>

text \<open>Lines 45 to 63, \<^verbatim>\<open>ScoreBar\<close>: the width of the bar, in percent.\<close>

definition ScoreBar_width :: "real \<Rightarrow> jsnum" where
  "ScoreBar_width score = js_min100 (Fin score)"

text \<open>Lines 209 to 214: the banner is rendered when the message is not empty.\<close>

definition error_banner :: "leaderboard \<Rightarrow> string option" where
  "error_banner st = (if error_msg st \<noteq> [] then Some (error_msg st) else None)"

text \<open>
  Lines 230 to 295: the body of the table is the loading row, the row "No agents found",
  or one row per agent with its rank and its score bar.
\<close>

record agent_row =
  row_rank :: nat
  row_agent :: TrustedAgent
  row_bar :: jsnum

datatype table_body = LoadingRow | NoAgentsRow | AgentRows "agent_row list"

definition table_rows :: "leaderboard \<Rightarrow> table_body" where
  "table_rows st =
     (if loading st then LoadingRow
      else if length (agents st) = 0 then NoAgentsRow
      else AgentRows
             (map (\<lambda>(i, agent). \<lparr>row_rank = i + 1, row_agent = agent,
                                  row_bar = ScoreBar_width (composite_score agent)\<rparr>)
                  (enumerate 0 (agents st))))"

text \<open>
  Lines 121 and 211 of the two pages:
  \<^verbatim>\<open>stats.total_agents > 0 ? (count / stats.total_agents) * 100 : 0\<close>, in exact
  arithmetic.
\<close>

definition pct :: "int \<Rightarrow> int \<Rightarrow> jsnum" where
  "pct count tot =
     (if tot > 0 then js_times100 (js_div (of_int count) (of_int tot)) else Fin 0)"

text \<open>
  The same expression in double precision. The count and the total are integers; below
  \<open>2 ^ 53\<close> in magnitude a double holds them exactly.
\<close>

definition pct64 :: "int \<Rightarrow> int \<Rightarrow> jsnum" where
  "pct64 count tot =
     (if tot > 0 then times100_64 (div64 (of_int count) (of_int tot)) else Fin 0)"

text \<open>
  Lines 118 to 136 (home page: 208 to 226): the segments of the stacked bar, one per tier
  of the order whose percentage is not 0, with the percentage as its width.
\<close>

record segment =
  seg_tier :: string
  seg_count :: int
  seg_width :: jsnum

definition tier_segments :: "string list \<Rightarrow> dist \<Rightarrow> int \<Rightarrow> segment list" where
  "tier_segments tiers td tot =
     List.map_filter
       (\<lambda>tier. let count = count_of td tier; p = pct count tot
               in if p = Fin 0 then None
                  else Some \<lparr>seg_tier = tier, seg_count = count, seg_width = p\<rparr>)
       tiers"

text \<open>
  Lines 137 to 153 (home page: 227 to 243): the legend, one entry per tier of the order
  whose count is not 0.
\<close>

definition tier_legend :: "string list \<Rightarrow> dist \<Rightarrow> (string \<times> int) list" where
  "tier_legend tiers td =
     List.map_filter
       (\<lambda>tier. let count = count_of td tier in if count = 0 then None else Some (tier, count))
       tiers"

text \<open>
  Lines 116 and 202 of the two pages: the section is rendered when the statistics are
  there and \<^verbatim>\<open>tier_distribution\<close> is an object with at least one key.
\<close>

definition tier_section ::
  "string list \<Rightarrow> NetworkStats option \<Rightarrow> (segment list \<times> (string \<times> int) list) option" where
  "tier_section tiers sto =
     (case sto of
        None \<Rightarrow> None
      | Some s \<Rightarrow>
          (case tier_distribution s of
             None \<Rightarrow> None
           | Some td \<Rightarrow>
               if length td > 0
               then Some (tier_segments tiers td (total_agents s), tier_legend tiers td)
               else None))"

definition leaderboard_tier_section ::
  "NetworkStats option \<Rightarrow> (segment list \<times> (string \<times> int) list) option" where
  "leaderboard_tier_section = tier_section TIER_ORDER"

definition home_tier_section ::
  "NetworkStats option \<Rightarrow> (segment list \<times> (string \<times> int) list) option" where
  "home_tier_section =
     tier_section [''diamond'', ''platinum'', ''gold'', ''silver'', ''bronze'', ''unranked'']"

text \<open>Lines 19 to 25 and 35 to 43: the filter buttons, as slug and label.\<close>

definition CHAINS :: "(string \<times> string) list" where
  "CHAINS = [([], ''All Chains''), (''avalanche'', ''Avalanche''), (''ethereum'', ''Ethereum''),
             (''base'', ''Base''), (''polygon'', ''Polygon'')]"

definition CATEGORIES :: "(string \<times> string) list" where
  "CATEGORIES = [([], ''All''), (''defi'', ''DeFi''), (''gaming'', ''Gaming''), (''rwa'', ''RWA''),
                 (''payments'', ''Payments''), (''data'', ''Data''), (''general'', ''General'')]"

text \<open>
  Lines 160 to 180 and 186 to 206: one button per entry; the count is shown on it as a
  badge when \<^verbatim>\<open>slug && count > 0\<close>.
\<close>

record filter_button =
  btn_slug :: string
  btn_label :: string
  btn_active :: bool
  btn_badge :: "int option"

definition filter_buttons ::
  "(string \<times> string) list \<Rightarrow> dist option \<Rightarrow> string \<Rightarrow> filter_button list" where
  "filter_buttons entries d selected =
     map (\<lambda>(slug, label).
            let count = count_opt d slug
            in \<lparr>btn_slug = slug, btn_label = label, btn_active = (selected = slug),
                btn_badge = (if slug \<noteq> [] \<and> count > 0 then Some count else None)\<rparr>)
         entries"

definition chain_buttons :: "leaderboard \<Rightarrow> filter_button list" where
  "chain_buttons st =
     filter_buttons CHAINS
       (case stats st of None \<Rightarrow> None | Some s \<Rightarrow> chain_distribution s) (chain_sel st)"

definition category_buttons :: "leaderboard \<Rightarrow> filter_button list" where
  "category_buttons st =
     filter_buttons CATEGORIES
       (case stats st of None \<Rightarrow> None | Some s \<Rightarrow> category_counts s) (category st)"

subsection \<open>What the home page renders\<close>

text \<open>Lines 169 to 174 and 255 to 260 of the home page: the cards, as key and label.\<close>

definition PROTOCOLS :: "(string \<times> string) list" where
  "PROTOCOLS = [(''https'', ''HTTPS''), (''x402'', ''x402''), (''8004'', ''ERC-8004''),
                (''a2a'', ''A2A'')]"

definition HOME_CHAINS :: "(string \<times> string) list" where
  "HOME_CHAINS = [(''avalanche'', ''Avalanche''), (''ethereum'', ''Ethereum''), (''base'', ''Base''),
                  (''polygon'', ''Polygon'')]"

text \<open>
  Lines 176 and 262:
  \<^verbatim>\<open>stats.total_agents > 0 ? ((count / stats.total_agents) * 100).toFixed(1) : "0"\<close>,
  as the number the string denotes, in exact arithmetic.
\<close>

definition coverage_pct :: "int \<Rightarrow> int \<Rightarrow> jsnum" where
  "coverage_pct count tot =
     (if tot > 0 then toFixed1 (js_times100 (js_div (of_int count) (of_int tot)))
      else Fin 0)"

text \<open>The same expression in double precision.\<close>

definition coverage_pct64 :: "int \<Rightarrow> int \<Rightarrow> jsnum" where
  "coverage_pct64 count tot =
     (if tot > 0 then toFixed1_64 (times100_64 (div64 (of_int count) (of_int tot)))
      else Fin 0)"

text \<open>
  Lines 174 to 196 and 260 to 278: one card per entry, with the count, the percentage
  and a bar of width \<^verbatim>\<open>Math.min(100, parseFloat(pct))\<close>.
\<close>

record coverage_card =
  card_key :: string
  card_label :: string
  card_count :: int
  card_pct :: jsnum
  card_width :: jsnum

definition coverage_cards :: "(string \<times> string) list \<Rightarrow> dist \<Rightarrow> int \<Rightarrow> coverage_card list" where
  "coverage_cards entries d tot =
     map (\<lambda>(key, label).
            let count = count_of d key; p = coverage_pct count tot
            in \<lparr>card_key = key, card_label = label, card_count = count, card_pct = p,
                card_width = js_min100 p\<rparr>)
         entries"

text \<open>
  Lines 163 and 249: a section is rendered when the statistics are there and its
  distribution is an object with at least one key.
\<close>

definition protocol_section :: "NetworkStats option \<Rightarrow> coverage_card list option" where
  "protocol_section sto =
     (case sto of
        None \<Rightarrow> None
      | Some s \<Rightarrow>
          (case protocol_counts s of
             None \<Rightarrow> None
           | Some d \<Rightarrow>
               if length d > 0 then Some (coverage_cards PROTOCOLS d (total_agents s)) else None))"

definition chain_section :: "NetworkStats option \<Rightarrow> coverage_card list option" where
  "chain_section sto =
     (case sto of
        None \<Rightarrow> None
      | Some s \<Rightarrow>
          (case chain_distribution s of
             None \<Rightarrow> None
           | Some d \<Rightarrow>
               if length d > 0 then Some (coverage_cards HOME_CHAINS d (total_agents s)) else None))"

subsection \<open>Example inputs\<close>

text \<open>Two listing rows, as the API would return them for the chains base and polygon.\<close>

definition base_agent :: TrustedAgent where
  "base_agent = \<lparr>agent_id = 1, agent_name = Some ''alpha'', agent_chain = ''base'',
                  agent_category = Some ''defi'', agent_tier = ''gold'', composite_score = 72,
                  feedback_count = 3\<rparr>"

definition polygon_agent :: TrustedAgent where
  "polygon_agent = \<lparr>agent_id = 2, agent_name = None, agent_chain = ''polygon'',
                     agent_category = None, agent_tier = ''silver'', composite_score = 55,
                     feedback_count = 0\<rparr>"

text \<open>
  The page is mounted and its first listing arrives empty; the user selects the chain
  base and at once the chain polygon; the response for polygon arrives, and then the
  response for base.
\<close>

definition stale_run :: leaderboard where
  "stale_run =
     settle (Http 200 (JsonArray [base_agent]))
       (settle (Http 200 (JsonArray [polygon_agent]))
          (setChain ''polygon''
             (setChain ''base'' (settle (Http 200 (JsonArray [])) (mount initial)))))"

text \<open>
  The page is mounted, its first listing arrives with one row, and the user selects the
  chain base: one row is on display and a fetch is in flight.
\<close>

definition shown_state :: leaderboard where
  "shown_state = setChain ''base'' (settle (Http 200 (JsonArray [base_agent])) (mount initial))"

text \<open>
  The page is mounted and its first listing is answered with status 402; the user selects
  the chain base.
\<close>

definition paid_then_base :: leaderboard where
  "paid_then_base = setChain ''base'' (settle (Http 402 JsonOther) (mount initial))"

text \<open>Statistics whose count of gold agents exceeds the total.\<close>

definition over_total_stats :: NetworkStats where
  "over_total_stats =
     \<lparr>total_agents = 100, avg_score = 50, total_feedback = 0,
      tier_distribution = Some [(''gold'', 150)], chain_distribution = None,
      category_counts = None, protocol_counts = None\<rparr>"

text \<open>
  Statistics of 100 agents, 40 gold and 60 silver, with the keys of each object in an
  order that is not the one of the page; some counts are 0.
\<close>

definition scenario_stats :: NetworkStats where
  "scenario_stats =
     \<lparr>total_agents = 100, avg_score = 50, total_feedback = 0,
      tier_distribution = Some [(''silver'', 60), (''bronze'', 0), (''gold'', 40)],
      chain_distribution = Some [(''polygon'', 7), (''base'', 0)],
      category_counts = Some [(''gaming'', 2), (''defi'', 0)],
      protocol_counts = Some [(''https'', 50), (''x402'', 0)]\<rparr>"

definition scenario_page :: leaderboard where
  "scenario_page = settle_stats (StatsHttp 200 (StatsJson scenario_stats)) (mount initial)"

section \<open>Properties\<close>

lemmas fetch_defs = settle_def on_response_def on_data_def on_catch_def on_finally_def ok_def

lemmas run_defs = fetch_defs mount_def initial_def stats_effect_def listing_effect_def
  setChain_def setCategory_def listing_params_def params_set_def settle_stats_def

lemmas render_defs = tier_section_def tier_segments_def tier_legend_def
  leaderboard_tier_section_def home_tier_section_def TIER_ORDER_def List.map_filter_simps
  count_of_def count_opt_def pct_def coverage_pct_def js_div_def
  filter_buttons_def chain_buttons_def category_buttons_def CHAINS_def CATEGORIES_def
  coverage_cards_def protocol_section_def chain_section_def PROTOCOLS_def HOME_CHAINS_def

subsection \<open>The listing fetch\<close>

lemma paid_message_not_empty: "PAID_MESSAGE \<noteq> []"
  by (simp add: PAID_MESSAGE_def)

lemma ok_not_402: "ok s \<Longrightarrow> s \<noteq> 402"
  by (simp add: ok_def)

lemma settle_ok_array:
  assumes "ok s"
  shows "settle (Http s (JsonArray rows)) st = st\<lparr>agents := rows, loading := False\<rparr>"
  using assms ok_not_402 [OF assms] by (simp add: settle_def on_response_def on_data_def on_finally_def)

lemma settle_keeps_selection:
  "chain_sel (settle r st) = chain_sel st \<and> category (settle r st) = category st
   \<and> sent (settle r st) = sent st"
  by (cases r) (auto simp: fetch_defs split: body.splits)

text \<open>
  Claim C4. A listing fetch that settles with status 402 leaves the empty listing, the
  fixed advisory as the message (shown in the banner), and the loading flag cleared. The
  handler sends no request: no payment and no retry. The table shows "No agents found".
\<close>

theorem settle_payment_required:
  "agents (settle (Http 402 b) st) = []
   \<and> error_msg (settle (Http 402 b) st) = PAID_MESSAGE
   \<and> error_banner (settle (Http 402 b) st) = Some PAID_MESSAGE
   \<and> loading (settle (Http 402 b) st) = False
   \<and> table_rows (settle (Http 402 b) st) = NoAgentsRow
   \<and> sent (settle (Http 402 b) st) = sent st"
proof -
  have shape: "settle (Http 402 b) st = st\<lparr>error_msg := PAID_MESSAGE, agents := [], loading := False\<rparr>"
    by (simp add: settle_def on_response_def on_data_def on_finally_def)
  show ?thesis
    unfolding shape by (simp add: error_banner_def table_rows_def paid_message_not_empty)
qed

text \<open>
  Claim C7. The query of the listing fetch is \<open>limit=50\<close>, followed by the category when
  it is not empty and by the chain when it is not empty. So the parameter \<open>category\<close> is
  present exactly when the category is not empty, likewise \<open>chain\<close>, and neither is ever
  sent with the empty string as its value. This is the query the listing effect sends.
\<close>

theorem listing_query_omits_empty_filters:
  "listing_params cat ch =
     [(''limit'', ''50'')] @ (if cat = [] then [] else [(''category'', cat)])
       @ (if ch = [] then [] else [(''chain'', ch)])
   \<and> map_of (listing_params cat ch) ''limit'' = Some ''50''
   \<and> (''category'' \<in> fst ` set (listing_params cat ch)) = (cat \<noteq> [])
   \<and> (''chain'' \<in> fst ` set (listing_params cat ch)) = (ch \<noteq> [])
   \<and> map_of (listing_params cat ch) ''category'' = (if cat = [] then None else Some cat)
   \<and> map_of (listing_params cat ch) ''chain'' = (if ch = [] then None else Some ch)
   \<and> (''category'', []) \<notin> set (listing_params cat ch)
   \<and> (''chain'', []) \<notin> set (listing_params cat ch)
   \<and> sent (listing_effect st) = sent st @ [GetTop (listing_params (category st) (chain_sel st))]"
proof -
  have shape: "listing_params cat ch =
     [(''limit'', ''50'')] @ (if cat = [] then [] else [(''category'', cat)])
       @ (if ch = [] then [] else [(''chain'', ch)])"
    by (simp add: listing_params_def params_set_def)
  have "sent (listing_effect st) = sent st @ [GetTop (listing_params (category st) (chain_sel st))]"
    by (simp add: listing_effect_def)
  then show ?thesis
    unfolding shape by auto
qed

text \<open>
  Claim C1, as stated, fails: in the run \<open>stale_run\<close> the fetch for the chain base is sent
  before the fetch for the chain polygon and settles after it. The selected chain is
  polygon and the listing on display is the base listing: the late response for base has
  overwritten the polygon listing.
\<close>

theorem stale_response_overwrites_listing:
  "sent stale_run =
     [GetStats, GetTop [(''limit'', ''50'')],
      GetTop [(''limit'', ''50''), (''chain'', ''base'')],
      GetTop [(''limit'', ''50''), (''chain'', ''polygon'')]]
   \<and> chain_sel stale_run = ''polygon''
   \<and> loading stale_run = False
   \<and> agents stale_run = [base_agent]
   \<and> agents stale_run \<noteq> [polygon_agent]"
  by (simp add: stale_run_def run_defs base_agent_def polygon_agent_def)

text \<open>
  Claim C1, amended. No request is cancelled and no response is compared with the
  selection. Let \<open>st\<close> be the state after the later filter set was selected and its fetch
  sent. However the later fetch settles, an earlier fetch that settles after it with an
  ok status and an array leaves its own array as the listing, while the selected category
  and chain stay those of \<open>st\<close>. The listing on display is the one of the response that
  settled last.
\<close>

theorem last_settled_response_wins:
  assumes "ok s"
  shows "agents (settle (Http s (JsonArray rows1)) (settle r2 st)) = rows1
         \<and> chain_sel (settle (Http s (JsonArray rows1)) (settle r2 st)) = chain_sel st
         \<and> category (settle (Http s (JsonArray rows1)) (settle r2 st)) = category st
         \<and> chain_sel (setChain f2 (setChain f1 st0)) = f2"
proof -
  have rows: "agents (settle (Http s (JsonArray rows1)) st') = rows1" for st'
    by (simp add: settle_ok_array [OF assms])
  have sel: "chain_sel (settle r (settle r2 st)) = chain_sel st
             \<and> category (settle r (settle r2 st)) = category st" for r
    by (simp add: settle_keeps_selection)
  have "chain_sel (setChain f2 (setChain f1 st0)) = f2"
    by (simp add: setChain_def listing_effect_def)
  with rows sel show ?thesis
    by simp
qed

theorem last_settled_response_wins_witness:
  "ok 200
   \<and> agents (settle (Http 200 (JsonArray [base_agent]))
        (settle (Http 200 (JsonArray [polygon_agent]))
           (setChain ''polygon'' (setChain ''base'' (mount initial))))) = [base_agent]
   \<and> chain_sel (settle (Http 200 (JsonArray [base_agent]))
        (settle (Http 200 (JsonArray [polygon_agent]))
           (setChain ''polygon'' (setChain ''base'' (mount initial))))) = ''polygon''"
proof -
  have h: "ok 200" by (simp add: ok_def)
  show ?thesis
    using h last_settled_response_wins [OF h, of "[base_agent]" "Http 200 (JsonArray [polygon_agent])"
        "setChain ''polygon'' (setChain ''base'' (mount initial))" "''polygon''" "''base''"
        "mount initial"]
    by simp
qed

text \<open>
  Claim C2, as stated, fails in both of its cases. One row is on display and a fetch is in
  flight (\<open>shown_state\<close>). When the fetch settles with status 500, no message is set and
  no banner is shown. When the fetch is rejected by the network, the row stays on
  display.
\<close>

theorem failure_without_banner_or_with_stale_rows:
  "agents shown_state = [base_agent]
   \<and> error_banner shown_state = None
   \<and> error_banner (settle (Http 500 JsonOther) shown_state) = None
   \<and> agents (settle NetworkFailure shown_state) = [base_agent]"
  by (simp add: shown_state_def run_defs error_banner_def)

text \<open>
  Claim C2, amended. A listing fetch that is rejected by the network sets the generic
  message, clears the loading flag and leaves the rows as they were. A listing fetch that
  settles with a status that is neither ok nor 402 stores the empty listing, clears the
  loading flag and leaves the message as it was.
\<close>

theorem listing_failure_outcomes:
  assumes "\<not> ok s" and "s \<noteq> 402"
  shows "error_msg (settle NetworkFailure st) = FAILED_MESSAGE
         \<and> agents (settle NetworkFailure st) = agents st
         \<and> loading (settle NetworkFailure st) = False
         \<and> agents (settle (Http s b) st) = []
         \<and> error_msg (settle (Http s b) st) = error_msg st
         \<and> loading (settle (Http s b) st) = False
         \<and> error_banner (settle NetworkFailure st) = Some FAILED_MESSAGE
         \<and> error_banner (settle (Http s b) st) = error_banner st"
proof -
  have net: "settle NetworkFailure st = st\<lparr>error_msg := FAILED_MESSAGE, loading := False\<rparr>"
    by (simp add: settle_def on_catch_def on_finally_def)
  have http: "settle (Http s b) st = st\<lparr>agents := [], loading := False\<rparr>"
    using assms by (simp add: settle_def on_response_def on_data_def on_finally_def)
  show ?thesis
    unfolding net http by (simp add: error_banner_def FAILED_MESSAGE_def)
qed

theorem listing_failure_outcomes_witness:
  "\<not> ok 500 \<and> (500 :: nat) \<noteq> 402
   \<and> error_msg (settle NetworkFailure shown_state) = ''Failed to load''
   \<and> agents (settle NetworkFailure shown_state) = [base_agent]
   \<and> agents (settle (Http 500 JsonOther) shown_state) = []
   \<and> error_msg (settle (Http 500 JsonOther) shown_state) = []"
proof -
  have h1: "\<not> ok 500" by (simp add: ok_def)
  have h2: "(500 :: nat) \<noteq> 402" by simp
  have before: "agents shown_state = [base_agent]" "error_msg shown_state = []"
    by (simp_all add: shown_state_def run_defs)
  show ?thesis
    using h1 h2 before listing_failure_outcomes [OF h1 h2, of shown_state JsonOther]
    by (simp add: FAILED_MESSAGE_def)
qed

text \<open>
  Claim C3, as stated, fails: with one row on display, an ok response whose body is JSON
  but not an array leaves that row on display; the listing is not the empty one.
\<close>

theorem non_array_body_keeps_rows:
  "agents (settle (Http 200 JsonOther) shown_state) = [base_agent]
   \<and> table_rows (settle (Http 200 JsonOther) shown_state)
       = AgentRows [\<lparr>row_rank = 1, row_agent = base_agent, row_bar = Fin 72\<rparr>]"
  by (simp add: shown_state_def run_defs table_rows_def enumerate_eq_zip ScoreBar_width_def
      base_agent_def)

text \<open>
  Claim C3, amended. An ok response whose body is JSON but not an array leaves the
  listing as it was, sets no message and clears the loading flag. So the table shows
  "No agents found" when the listing was empty before, as it is after mounting. An ok
  response whose body is not JSON at all is caught: it leaves the listing as it was, too,
  sets the generic message and clears the loading flag.
\<close>

theorem non_array_body_leaves_listing:
  assumes "ok s"
  shows "agents (settle (Http s JsonOther) st) = agents st
         \<and> error_msg (settle (Http s JsonOther) st) = error_msg st
         \<and> loading (settle (Http s JsonOther) st) = False
         \<and> (agents st = [] \<longrightarrow> table_rows (settle (Http s JsonOther) st) = NoAgentsRow)
         \<and> agents (settle (Http s NotJson) st) = agents st
         \<and> error_msg (settle (Http s NotJson) st) = FAILED_MESSAGE
         \<and> loading (settle (Http s NotJson) st) = False"
proof -
  have other: "settle (Http s JsonOther) st = st\<lparr>loading := False\<rparr>"
    using assms ok_not_402 [OF assms]
    by (simp add: settle_def on_response_def on_data_def on_finally_def)
  have unparsed: "settle (Http s NotJson) st = st\<lparr>error_msg := FAILED_MESSAGE, loading := False\<rparr>"
    using assms ok_not_402 [OF assms]
    by (simp add: settle_def on_response_def on_catch_def on_finally_def)
  show ?thesis
    unfolding other unparsed by (simp add: table_rows_def)
qed

theorem non_array_body_leaves_listing_witness:
  "ok 200 \<and> agents (mount initial) = []
   \<and> agents (settle (Http 200 JsonOther) (mount initial)) = []
   \<and> error_msg (settle (Http 200 JsonOther) (mount initial)) = []
   \<and> loading (settle (Http 200 JsonOther) (mount initial)) = False
   \<and> table_rows (settle (Http 200 JsonOther) (mount initial)) = NoAgentsRow"
proof -
  have h: "ok 200" by (simp add: ok_def)
  have before: "agents (mount initial) = []" "error_msg (mount initial) = []"
    by (simp_all add: run_defs)
  show ?thesis
    using h before non_array_body_leaves_listing [OF h, of "mount initial"] by simp
qed

text \<open>
  Claim C10, as stated, fails: the first fetch is answered with status 402 and the user
  selects the chain base (\<open>paid_then_base\<close>). The new fetch has started, the loading flag
  is set, and the advisory of the first attempt is still the message. When the new fetch
  settles with one row, the banner with the advisory is shown together with that row.
\<close>

theorem earlier_error_survives_new_fetch:
  "loading paid_then_base = True
   \<and> error_banner paid_then_base = Some PAID_MESSAGE
   \<and> agents (settle (Http 200 (JsonArray [base_agent])) paid_then_base) = [base_agent]
   \<and> loading (settle (Http 200 (JsonArray [base_agent])) paid_then_base) = False
   \<and> error_banner (settle (Http 200 (JsonArray [base_agent])) paid_then_base) = Some PAID_MESSAGE"
  by (simp add: paid_then_base_def run_defs error_banner_def paid_message_not_empty)

text \<open>
  Claim C10, amended. The start of a listing fetch sets the loading flag, so the table
  shows the loading row; it leaves the message and the banner as they were. A fetch that
  settles with an ok status and an array leaves the message as it was, too: the message
  of an earlier attempt stays on display.
\<close>

theorem fetch_start_sets_loading_keeps_error:
  assumes "ok s" and "c \<noteq> chain_sel st" and "g \<noteq> category st"
  shows "loading (listing_effect st) = True
         \<and> table_rows (listing_effect st) = LoadingRow
         \<and> error_msg (listing_effect st) = error_msg st
         \<and> error_banner (listing_effect st) = error_banner st
         \<and> loading (mount st) = True \<and> error_msg (mount st) = error_msg st
         \<and> loading (setChain c st) = True \<and> error_msg (setChain c st) = error_msg st
         \<and> loading (setCategory g st) = True \<and> error_msg (setCategory g st) = error_msg st
         \<and> error_msg (settle (Http s (JsonArray rows)) (listing_effect st)) = error_msg st"
proof -
  have start: "loading (listing_effect st') = True \<and> error_msg (listing_effect st') = error_msg st'"
    for st'
    by (simp add: listing_effect_def)
  have "loading (mount st) = True \<and> error_msg (mount st) = error_msg st"
    unfolding mount_def using start [of "stats_effect st"] by (simp add: stats_effect_def)
  moreover have "loading (setChain c st) = True \<and> error_msg (setChain c st) = error_msg st"
    using assms(2) start [of "st\<lparr>chain_sel := c\<rparr>"] by (simp add: setChain_def)
  moreover have "loading (setCategory g st) = True \<and> error_msg (setCategory g st) = error_msg st"
    using assms(3) start [of "st\<lparr>category := g\<rparr>"] by (simp add: setCategory_def)
  moreover have "error_msg (settle (Http s (JsonArray rows)) (listing_effect st)) = error_msg st"
    using start [of st] by (simp add: settle_ok_array [OF assms(1)])
  moreover have "table_rows (listing_effect st) = LoadingRow"
    using start [of st] by (simp add: table_rows_def)
  moreover have "error_banner (listing_effect st) = error_banner st"
    using start [of st] by (simp add: error_banner_def)
  ultimately show ?thesis
    using start [of st] by simp
qed

theorem fetch_start_sets_loading_keeps_error_witness:
  "ok 200
   \<and> ''base'' \<noteq> chain_sel (settle (Http 402 JsonOther) (mount initial))
   \<and> ''defi'' \<noteq> category (settle (Http 402 JsonOther) (mount initial))
   \<and> loading (setChain ''base'' (settle (Http 402 JsonOther) (mount initial))) = True
   \<and> error_msg (setChain ''base'' (settle (Http 402 JsonOther) (mount initial))) = PAID_MESSAGE
   \<and> error_msg (setCategory ''defi'' (settle (Http 402 JsonOther) (mount initial))) = PAID_MESSAGE
   \<and> error_msg (settle (Http 200 (JsonArray [base_agent]))
        (listing_effect (settle (Http 402 JsonOther) (mount initial)))) = PAID_MESSAGE"
proof -
  have h: "ok 200" by (simp add: ok_def)
  have before: "error_msg (settle (Http 402 JsonOther) (mount initial)) = PAID_MESSAGE"
    by (simp add: fetch_defs)
  have c: "''base'' \<noteq> chain_sel (settle (Http 402 JsonOther) (mount initial))"
    by (simp add: run_defs)
  have g: "''defi'' \<noteq> category (settle (Http 402 JsonOther) (mount initial))"
    by (simp add: run_defs)
  show ?thesis
    using h c g before fetch_start_sets_loading_keeps_error [OF h c g, of "[base_agent]"]
    by simp
qed

subsection \<open>Percentages and widths\<close>

text \<open>
  In exact arithmetic the percentage is \<open>100 * count / total\<close> for a positive total and 0
  otherwise, and the percentage of the coverage cards is that value rounded to one
  decimal.
\<close>

lemma pct_exact_value:
  "pct count tot = Fin (if 0 < tot then 100 * of_int count / of_int tot else 0)
   \<and> coverage_pct count tot
       = Fin (if 0 < tot then round_tenth (100 * of_int count / of_int tot) else 0)"
  by (simp add: pct_def coverage_pct_def js_div_def mult.commute)

text \<open>
  Rounding to a double: the rounded value is at most half a unit in the last place away,
  which is at most the \<open>2 ^ 53\<close>-th part of the value in the normal range.
\<close>

lemma round_even_error: "\<bar>of_int (round_even y) - y\<bar> \<le> 1 / 2"
  unfolding round_even_def Let_def by (auto; linarith)

lemma ulp_pos: "0 < ulp x"
  by (simp add: ulp_def)

lemma exponent_bracket:
  assumes "x \<noteq> 0"
  shows "2 powi exponent x \<le> \<bar>x\<bar>" and "\<bar>x\<bar> < 2 powi (exponent x + 1)"
proof -
  have "2 powi exponent x \<le> \<bar>x\<bar> \<and> \<bar>x\<bar> < 2 powi (exponent x + 1)"
  proof (cases "1 \<le> \<bar>x\<bar>")
    case True
    define m where "m = \<lfloor>\<bar>x\<bar>\<rfloor>"
    have m: "0 < m" "of_int m \<le> \<bar>x\<bar>" "\<bar>x\<bar> < of_int m + 1"
      using True unfolding m_def by linarith+
    have b: "2 ^ nat (bitlen m - 1) \<le> m" "m < 2 ^ nat (bitlen m)"
      using bitlen_bounds [OF m(1)] by simp_all
    have pos: "1 \<le> bitlen m"
      using m(1) bitlen_eq_zero_iff [of m] bitlen_nonneg [of m] by linarith
    have e: "exponent x = bitlen m - 1"
      using True by (simp add: exponent_def m_def)
    have "(2::real) powi (bitlen m - 1) = 2 ^ nat (bitlen m - 1)"
      using pos by (simp add: power_int_def)
    also have "\<dots> = of_int (2 ^ nat (bitlen m - 1))"
      by simp
    also have "\<dots> \<le> of_int m"
      using b(1) by (simp only: of_int_le_iff)
    finally have lo: "2 powi (bitlen m - 1) \<le> \<bar>x\<bar>"
      using m(2) by linarith
    have "m + 1 \<le> 2 ^ nat (bitlen m)"
      using b(2) by linarith
    then have "real_of_int (m + 1) \<le> of_int (2 ^ nat (bitlen m))"
      by (simp only: of_int_le_iff)
    also have "\<dots> = 2 powi (bitlen m)"
      using pos by (simp add: power_int_def)
    finally have hi: "\<bar>x\<bar> < 2 powi (bitlen m)"
      using m(3) by simp
    show ?thesis
      using lo hi by (simp add: e)
  next
    case False
    define y where "y = 1 / \<bar>x\<bar>"
    define j where "j = \<lceil>y\<rceil> - 1"
    have x: "0 < \<bar>x\<bar>" "\<bar>x\<bar> < 1"
      using assms False by simp_all
    have y: "1 < y" "\<bar>x\<bar> = 1 / y"
      using x by (simp_all add: y_def)
    have j: "0 < j" "y \<le> of_int j + 1" "of_int j < y"
      using y(1) unfolding j_def by linarith+
    define k where "k = bitlen j"
    have b: "2 ^ nat (k - 1) \<le> j" "j < 2 ^ nat k"
      using bitlen_bounds [OF j(1)] by (simp_all add: k_def)
    have pos: "1 \<le> k"
      using j(1) bitlen_eq_zero_iff [of j] bitlen_nonneg [of j] unfolding k_def by linarith
    have e: "exponent x = - k"
      using False by (simp add: exponent_def k_def j_def y_def)
    have "j + 1 \<le> 2 ^ nat k"
      using b(2) by linarith
    then have "real_of_int (j + 1) \<le> 2 ^ nat k"
      by (simp only: of_int_le_numeral_power_cancel_iff)
    with j(2) have yk: "y \<le> 2 ^ nat k"
      by simp
    have "2 ^ nat (k - 1) \<le> real_of_int j"
      using b(1) by (simp only: numeral_power_le_of_int_cancel_iff)
    with j(3) have ky: "2 ^ nat (k - 1) < y"
      by linarith
    have "(2::real) powi (- k) = 1 / 2 ^ nat k"
      using pos by (simp add: power_int_def field_simps)
    also have "\<dots> \<le> 1 / y"
      using yk y(1) by (intro divide_left_mono) simp_all
    finally have lo: "2 powi (- k) \<le> \<bar>x\<bar>"
      by (simp add: y(2))
    have "1 / y < 1 / 2 ^ nat (k - 1)"
      using ky y(1) by (intro divide_strict_left_mono) simp_all
    also have "\<dots> = (2::real) powi (- k + 1)"
    proof -
      have "(2::real) powi (k - 1) = 2 ^ nat (k - 1)"
        using pos by (simp add: power_int_def)
      moreover have "(2::real) powi (- (k - 1)) = 1 / 2 powi (k - 1)"
        by (rule power_int_minus_divide)
      moreover have "- k + 1 = - (k - 1)"
        by simp
      ultimately show ?thesis
        by (simp only:)
    qed
    finally have hi: "\<bar>x\<bar> < 2 powi (- k + 1)"
      by (simp add: y(2))
    show ?thesis
      using lo hi by (simp add: e)
  qed
  then show "2 powi exponent x \<le> \<bar>x\<bar>" and "\<bar>x\<bar> < 2 powi (exponent x + 1)"
    by simp_all
qed

lemma bracket_nonzero:
  fixes x :: real
  assumes "2 powi e \<le> \<bar>x\<bar>"
  shows "x \<noteq> 0"
proof
  assume "x = 0"
  with assms have "(2::real) powi e \<le> 0" by simp
  moreover have "(0::real) < 2 powi e" by simp
  ultimately show False by linarith
qed

lemma exponent_unique:
  assumes lo: "2 powi e \<le> \<bar>x\<bar>" and hi: "\<bar>x\<bar> < 2 powi (e + 1)"
  shows "exponent x = e"
proof (rule ccontr)
  assume ne: "exponent x \<noteq> e"
  have x0: "x \<noteq> 0"
    using lo by (rule bracket_nonzero)
  note br = exponent_bracket [OF x0]
  show False
  proof (cases "exponent x < e")
    case True
    then have "(2::real) powi (exponent x + 1) \<le> 2 powi e"
      by (intro power_int_increasing) simp_all
    with br(2) lo show False by linarith
  next
    case False
    with ne have "(2::real) powi (e + 1) \<le> 2 powi exponent x"
      by (intro power_int_increasing) simp_all
    with br(1) hi show False by linarith
  qed
qed

lemma ulp_eval:
  assumes "2 powi e \<le> \<bar>x\<bar>" "\<bar>x\<bar> < 2 powi (e + 1)" "- 1022 \<le> e"
  shows "ulp x = 2 powi (e - 52)"
  using exponent_unique [OF assms(1,2)] assms(3) by (simp add: ulp_def max_def)

lemma round_even_eq:
  assumes "of_int n - 1 / 2 < y" "y < of_int n + 1 / 2"
  shows "round_even y = n"
proof -
  have "\<lfloor>y\<rfloor> = n \<or> \<lfloor>y\<rfloor> = n - 1"
    using assms by linarith
  then show ?thesis
    using assms unfolding round_even_def Let_def by (auto; linarith)
qed

lemma rounded_error:
  fixes x :: real
  shows "\<bar>of_int (round_even (x / 2 powi (e - 52))) * 2 powi (e - 52) - x\<bar> \<le> 2 powi e / 2 ^ 53"
proof -
  let ?u = "(2::real) powi (e - 52)"
  have u: "0 < ?u" by simp
  have "(of_int (round_even (x / ?u)) - x / ?u) * ?u = of_int (round_even (x / ?u)) * ?u - x"
    using u by (simp add: left_diff_distrib)
  then have "\<bar>of_int (round_even (x / ?u)) * ?u - x\<bar> = \<bar>of_int (round_even (x / ?u)) - x / ?u\<bar> * \<bar>?u\<bar>"
    by (metis abs_mult)
  also have "\<dots> = \<bar>of_int (round_even (x / ?u)) - x / ?u\<bar> * ?u"
    using u by simp
  also have "\<dots> \<le> 1 / 2 * ?u"
    using round_even_error [of "x / ?u"] u by (intro mult_right_mono) simp_all
  also have "\<dots> = 2 powi e / 2 ^ 53"
    by (simp add: power_int_diff)
  finally show ?thesis .
qed

lemma fl_bracket:
  assumes lo: "2 powi e \<le> \<bar>x\<bar>" and hi: "\<bar>x\<bar> < 2 powi (e + 1)"
    and e: "- 1022 \<le> e" "e \<le> 1022"
  shows "fl x = Fin (of_int (round_even (x / 2 powi (e - 52))) * 2 powi (e - 52))"
proof -
  let ?r = "of_int (round_even (x / 2 powi (e - 52))) * 2 powi (e - 52) :: real"
  have u: "ulp x = 2 powi (e - 52)"
    using lo hi e(1) by (rule ulp_eval)
  have x0: "x \<noteq> 0"
    using lo by (rule bracket_nonzero)
  have "\<bar>?r - x\<bar> \<le> 2 powi e / 2 ^ 53"
    by (rule rounded_error)
  also have "\<dots> \<le> 2 powi e"
    by (simp add: divide_le_eq)
  finally have "\<bar>?r\<bar> \<le> \<bar>x\<bar> + 2 powi e"
    by linarith
  also have "\<dots> < 2 powi (e + 1) + 2 powi e"
    using hi by simp
  also have "\<dots> \<le> 2 powi 1023 + 2 powi 1022"
    using e(2) by (intro add_mono power_int_increasing) simp_all
  also have "\<dots> \<le> 2 ^ 1024"
    by simp
  finally have "\<not> 2 ^ 1024 \<le> \<bar>?r\<bar>"
    by simp
  then show ?thesis
    using x0 by (simp add: fl_def u Let_def)
qed

lemma fl_eval:
  assumes lo: "2 powi e \<le> \<bar>x\<bar>" and hi: "\<bar>x\<bar> < 2 powi (e + 1)"
    and e: "- 1022 \<le> e" "e \<le> 1022"
    and n: "of_int n - 1 / 2 < x / 2 powi (e - 52)" "x / 2 powi (e - 52) < of_int n + 1 / 2"
  shows "fl x = Fin (of_int n * 2 powi (e - 52))"
  using fl_bracket [OF lo hi e] round_even_eq [OF n] by simp

lemma fl_normal:
  assumes lo: "2 powi (- 1022) \<le> \<bar>x\<bar>" and hi: "\<bar>x\<bar> < 2 ^ 1023"
  shows "\<exists>r. fl x = Fin r \<and> \<bar>r - x\<bar> \<le> \<bar>x\<bar> / 2 ^ 53"
proof -
  define e where "e = exponent x"
  have x0: "x \<noteq> 0"
    using lo by (rule bracket_nonzero)
  have br: "2 powi e \<le> \<bar>x\<bar>" "\<bar>x\<bar> < 2 powi (e + 1)"
    unfolding e_def using exponent_bracket [OF x0] by simp_all
  have "- 1022 \<le> e"
  proof (rule ccontr)
    assume "\<not> - 1022 \<le> e"
    then have "(2::real) powi (e + 1) \<le> 2 powi (- 1022)"
      by (intro power_int_increasing) simp_all
    with br(2) lo show False by linarith
  qed
  moreover have "e \<le> 1022"
  proof (rule ccontr)
    assume "\<not> e \<le> 1022"
    then have "(2::real) powi 1023 \<le> 2 powi e"
      by (intro power_int_increasing) simp_all
    with br(1) hi show False by simp
  qed
  ultimately have e: "- 1022 \<le> e" "e \<le> 1022"
    by simp_all
  have "fl x = Fin (of_int (round_even (x / 2 powi (e - 52))) * 2 powi (e - 52))"
    using br e by (rule fl_bracket)
  moreover have "\<bar>of_int (round_even (x / 2 powi (e - 52))) * 2 powi (e - 52) - x\<bar> \<le> \<bar>x\<bar> / 2 ^ 53"
  proof -
    have "\<bar>of_int (round_even (x / 2 powi (e - 52))) * 2 powi (e - 52) - x\<bar> \<le> 2 powi e / 2 ^ 53"
      by (rule rounded_error)
    also have "\<dots> \<le> \<bar>x\<bar> / 2 ^ 53"
      using br(1) by (simp add: divide_right_mono)
    finally show ?thesis .
  qed
  ultimately show ?thesis by blast
qed

text \<open>
  The quotient of two integers below \<open>2 ^ 53\<close> and its product with 100 are in the normal
  range of the doubles, so the two roundings of the percentage add up to a relative
  error of at most \<open>1 / 2 ^ 51\<close>.
\<close>

lemma fl_zero: "fl 0 = Fin 0"
  by (simp add: fl_def)

lemma fl_moderate:
  assumes lo: "1 / 2 ^ 60 \<le> \<bar>x\<bar>" and hi: "\<bar>x\<bar> < 2 ^ 70"
  shows "\<exists>r. fl x = Fin r \<and> \<bar>r - x\<bar> \<le> \<bar>x\<bar> / 2 ^ 53"
proof (rule fl_normal)
  have "(2::real) powi (- 1022) \<le> 2 powi (- 60)"
    by (intro power_int_increasing) simp_all
  also have "\<dots> = 1 / 2 ^ 60"
    by (simp add: power_int_minus_divide)
  finally show "2 powi (- 1022) \<le> \<bar>x\<bar>"
    using lo by simp
  have "(2::real) ^ 70 < 2 ^ 1023"
    by (rule power_strict_increasing) simp_all
  with hi show "\<bar>x\<bar> < 2 ^ 1023"
    by simp
qed

lemma quotient_range:
  fixes count tot :: int
  assumes c: "\<bar>count\<bar> < 2 ^ 53" "count \<noteq> 0" and t: "0 < tot" "tot < 2 ^ 53"
  shows "1 / 2 ^ 53 \<le> \<bar>real_of_int count / real_of_int tot\<bar>"
    and "\<bar>real_of_int count / real_of_int tot\<bar> < 2 ^ 53"
proof -
  have "real_of_int \<bar>count\<bar> < real_of_int (2 ^ 53)"
    using c(1) by (simp only: of_int_less_iff)
  moreover have "1 \<le> \<bar>count\<bar>"
    using c(2) by simp
  then have "real_of_int 1 \<le> real_of_int \<bar>count\<bar>"
    by (simp only: of_int_le_iff)
  ultimately have c1: "1 \<le> \<bar>real_of_int count\<bar>" "\<bar>real_of_int count\<bar> < 2 ^ 53"
    by simp_all
  have "real_of_int tot < real_of_int (2 ^ 53)"
    using t(2) by (simp only: of_int_less_iff)
  moreover have "1 \<le> tot"
    using t(1) by simp
  then have "real_of_int 1 \<le> real_of_int tot"
    by (simp only: of_int_le_iff)
  ultimately have t1: "1 \<le> real_of_int tot" "real_of_int tot < 2 ^ 53"
    by simp_all
  have "1 / 2 ^ 53 \<le> 1 / real_of_int tot"
    using t1 by (intro divide_left_mono) simp_all
  also have "\<dots> \<le> \<bar>real_of_int count\<bar> / real_of_int tot"
    using c1 t1 by (intro divide_right_mono) simp_all
  finally show "1 / 2 ^ 53 \<le> \<bar>real_of_int count / real_of_int tot\<bar>"
    using t1 by simp
  have "\<bar>real_of_int count\<bar> / real_of_int tot \<le> \<bar>real_of_int count\<bar> / 1"
    using t1 by (intro divide_left_mono) simp_all
  then show "\<bar>real_of_int count / real_of_int tot\<bar> < 2 ^ 53"
    using c1 t1 by simp
qed


lemma two_roundings:
  fixes x q p :: real
  assumes x: "1 / 2 ^ 53 \<le> \<bar>x\<bar>" "\<bar>x\<bar> < 2 ^ 53"
    and q: "\<bar>q - x\<bar> \<le> \<bar>x\<bar> / 2 ^ 53"
  shows "1 / 2 ^ 60 \<le> \<bar>q * 100\<bar>" and "\<bar>q * 100\<bar> < 2 ^ 70"
    and "\<bar>p - q * 100\<bar> \<le> \<bar>q * 100\<bar> / 2 ^ 53
         \<Longrightarrow> \<bar>p - 100 * x\<bar> \<le> \<bar>100 * x\<bar> / 2 ^ 51 \<and> \<bar>p\<bar> < 2 ^ 61 \<and> p \<noteq> 0"
proof -
  define a d b where "a = \<bar>x\<bar>" and "d = \<bar>q - x\<bar>" and "b = \<bar>q\<bar>"
  have tri: "a - d \<le> b" "b \<le> a + d"
    unfolding a_def d_def b_def by linarith+
  have a: "1 / 2 ^ 53 \<le> a" "a < 2 ^ 53" and d: "d \<le> a / 2 ^ 53"
    using x q unfolding a_def d_def by simp_all
  have b: "a / 2 \<le> b" "b \<le> 2 * a"
    using tri a d by simp_all
  have q100: "\<bar>q * 100\<bar> = 100 * b"
    by (simp add: b_def abs_mult)
  show "1 / 2 ^ 60 \<le> \<bar>q * 100\<bar>"
    unfolding q100 using a b by simp
  show "\<bar>q * 100\<bar> < 2 ^ 70"
    unfolding q100 using a b by simp
  assume p: "\<bar>p - q * 100\<bar> \<le> \<bar>q * 100\<bar> / 2 ^ 53"
  define g where "g = \<bar>p - q * 100\<bar>"
  have g: "g \<le> 100 * b / 2 ^ 53"
    using p unfolding g_def q100 by simp
  have split: "\<bar>p - 100 * x\<bar> \<le> g + 100 * d" "100 * b - g \<le> \<bar>p\<bar>" "\<bar>p\<bar> \<le> 100 * b + g"
    unfolding g_def d_def b_def by argo+
  have x100: "\<bar>100 * x\<bar> = 100 * a"
    by (simp add: a_def abs_mult)
  have "\<bar>p - 100 * x\<bar> \<le> \<bar>100 * x\<bar> / 2 ^ 51"
    unfolding x100 using split(1) g d b a by simp
  moreover have "\<bar>p\<bar> < 2 ^ 61"
    using split(3) g b a by simp
  moreover have "0 < \<bar>p\<bar>"
    using split(2) g b a by simp
  ultimately show "\<bar>p - 100 * x\<bar> \<le> \<bar>100 * x\<bar> / 2 ^ 51 \<and> \<bar>p\<bar> < 2 ^ 61 \<and> p \<noteq> 0"
    by simp
qed

lemma pct64_accuracy:
  assumes c: "\<bar>count\<bar> < 2 ^ 53" and t: "0 < tot" "tot < 2 ^ 53"
  shows "\<exists>p. pct64 count tot = Fin p
           \<and> \<bar>p - 100 * of_int count / of_int tot\<bar> \<le> \<bar>100 * of_int count / of_int tot\<bar> / 2 ^ 51
           \<and> \<bar>p\<bar> < 2 ^ 61 \<and> (p = 0 \<longleftrightarrow> count = 0)"
proof (cases "count = 0")
  case True
  then show ?thesis
    using t by (simp add: pct64_def div64_def fl_zero)
next
  case False
  let ?x = "real_of_int count / real_of_int tot"
  have x: "1 / 2 ^ 53 \<le> \<bar>?x\<bar>" "\<bar>?x\<bar> < 2 ^ 53"
    using quotient_range [OF c False t] by simp_all
  have "(1::real) / 2 ^ 60 \<le> 1 / 2 ^ 53" "(2::real) ^ 53 < 2 ^ 70"
    by simp_all
  with x have "1 / 2 ^ 60 \<le> \<bar>?x\<bar>" "\<bar>?x\<bar> < 2 ^ 70"
    by linarith+
  then obtain q where q: "fl ?x = Fin q" "\<bar>q - ?x\<bar> \<le> \<bar>?x\<bar> / 2 ^ 53"
    using fl_moderate by blast
  note r = two_roundings [OF x q(2)]
  obtain p where p: "fl (q * 100) = Fin p" "\<bar>p - q * 100\<bar> \<le> \<bar>q * 100\<bar> / 2 ^ 53"
    using fl_moderate [OF r(1,2)] by blast
  have "pct64 count tot = Fin p"
    using t q(1) p(1) by (simp add: pct64_def div64_def)
  moreover have "\<bar>p - 100 * ?x\<bar> \<le> \<bar>100 * ?x\<bar> / 2 ^ 51 \<and> \<bar>p\<bar> < 2 ^ 61 \<and> p \<noteq> 0"
    using p(2) by (rule r(3))
  ultimately show ?thesis
    using False by auto
qed

lemma round_tenth_abs: "\<bar>round_tenth x\<bar> = of_int \<lfloor>\<bar>x\<bar> * 10 + 1 / 2\<rfloor> / 10"
proof -
  have "0 \<le> \<lfloor>\<bar>x\<bar> * 10 + 1 / 2\<rfloor>"
    by simp
  then have "\<bar>real_of_int \<lfloor>\<bar>x\<bar> * 10 + 1 / 2\<rfloor> / 10\<bar> = of_int \<lfloor>\<bar>x\<bar> * 10 + 1 / 2\<rfloor> / 10"
    by simp
  moreover have "\<bar>round_tenth x\<bar> = \<bar>real_of_int \<lfloor>\<bar>x\<bar> * 10 + 1 / 2\<rfloor> / 10\<bar>"
    by (cases "x < 0") (simp_all add: round_tenth_def)
  ultimately show ?thesis
    by simp
qed

lemma round_tenth_zero_or_tenth: "round_tenth x = 0 \<or> 1 / 10 \<le> \<bar>round_tenth x\<bar>"
proof -
  have "0 \<le> \<lfloor>\<bar>x\<bar> * 10 + 1 / 2\<rfloor>"
    by simp
  then have "\<lfloor>\<bar>x\<bar> * 10 + 1 / 2\<rfloor> = 0 \<or> 1 \<le> \<lfloor>\<bar>x\<bar> * 10 + 1 / 2\<rfloor>"
    by linarith
  then show ?thesis
  proof
    assume "\<lfloor>\<bar>x\<bar> * 10 + 1 / 2\<rfloor> = 0"
    then have "\<bar>round_tenth x\<bar> = 0"
      by (simp add: round_tenth_abs)
    then show ?thesis by simp
  next
    assume "1 \<le> \<lfloor>\<bar>x\<bar> * 10 + 1 / 2\<rfloor>"
    then have "(1::real) \<le> of_int \<lfloor>\<bar>x\<bar> * 10 + 1 / 2\<rfloor>"
      by linarith
    then show ?thesis
      by (simp add: round_tenth_abs)
  qed
qed

lemma round_tenth_bound: "\<bar>round_tenth x\<bar> \<le> \<bar>x\<bar> + 1 / 20"
proof -
  have "of_int \<lfloor>\<bar>x\<bar> * 10 + 1 / 2\<rfloor> \<le> \<bar>x\<bar> * 10 + 1 / 2"
    by (rule of_int_floor_le)
  then show ?thesis
    by (simp add: round_tenth_abs)
qed

lemma coverage_pct64_finite:
  assumes c: "\<bar>count\<bar> < 2 ^ 53" and t: "0 < tot" "tot < 2 ^ 53"
  shows "\<exists>v. coverage_pct64 count tot = Fin v"
proof -
  obtain p where p: "pct64 count tot = Fin p" "\<bar>p\<bar> < 2 ^ 61"
    using pct64_accuracy [OF c t] by blast
  have small: "\<bar>p\<bar> < 10 ^ 21"
    using p(2) by simp
  have cov: "coverage_pct64 count tot = fl (round_tenth p)"
    using t p(1) small by (simp add: coverage_pct64_def pct64_def)
  show ?thesis
  proof (cases "round_tenth p = 0")
    case True
    then show ?thesis by (simp add: cov fl_zero)
  next
    case False
    then have "1 / 10 \<le> \<bar>round_tenth p\<bar>"
      using round_tenth_zero_or_tenth [of p] by simp
    then have lo: "1 / 2 ^ 60 \<le> \<bar>round_tenth p\<bar>"
      by simp
    have "\<bar>round_tenth p\<bar> \<le> \<bar>p\<bar> + 1 / 20"
      by (rule round_tenth_bound)
    with p(2) have hi: "\<bar>round_tenth p\<bar> < 2 ^ 70"
      by simp
    show ?thesis
      using fl_moderate [OF lo hi] cov by auto
  qed
qed

text \<open>The two roundings for 7 of 100.\<close>

lemma fl_7_100: "fl (7 / 100) = Fin (5044031582654956 / 2 ^ 56)"
  using fl_eval [of "-4" "7 / 100" 5044031582654956] by (simp add: power_int_minus_divide)

lemma fl_7_100_times_100: "fl (5044031582654956 / 2 ^ 56 * 100) = Fin (7881299347898369 / 2 ^ 50)"
  using fl_eval [of "2" "5044031582654956 / 2 ^ 56 * 100" 7881299347898369] by (simp add: power_int_minus_divide)

text \<open>
  Claim C6, as stated, fails: for 7 agents of a total of 100 the code computes
  \<^verbatim>\<open>(7 / 100) * 100\<close> in doubles, which is \<^verbatim>\<open>7.000000000000001\<close> (the double
  \<open>7881299347898369 / 2 ^ 50\<close>) and not \<open>100 * 7 / 100 = 7\<close>.
\<close>

theorem seven_percent_is_not_seven:
  "pct64 7 100 = Fin (7881299347898369 / 2 ^ 50)
   \<and> (7881299347898369 / 2 ^ 50 :: real) \<noteq> 100 * 7 / 100"
  using fl_7_100 fl_7_100_times_100 by (simp add: pct64_def div64_def)

text \<open>
  Claim C6, amended. With a total that is 0 or negative the percentage is 0 for every
  count, on the tier bar and on the coverage cards, and no division is carried out. With a
  positive total, for a count and a total below \<open>2 ^ 53\<close> in magnitude, the percentage is a
  finite double that differs from \<open>100 * count / total\<close> by at most the \<open>2 ^ 51\<close>-th part of
  that value, and is 0 exactly when the count is 0; the percentage of the coverage cards
  is finite, too. A division by zero would give a value that is not finite: none occurs.
\<close>

theorem pct_double_guarded_and_accurate:
  "(tot \<le> 0 \<longrightarrow> pct64 count tot = Fin 0 \<and> coverage_pct64 count tot = Fin 0)
   \<and> (0 < tot \<and> tot < 2 ^ 53 \<and> \<bar>count\<bar> < 2 ^ 53 \<longrightarrow>
        (\<exists>p. pct64 count tot = Fin p
             \<and> \<bar>p - 100 * of_int count / of_int tot\<bar> \<le> \<bar>100 * of_int count / of_int tot\<bar> / 2 ^ 51
             \<and> (p = 0 \<longleftrightarrow> count = 0))
        \<and> (\<exists>v. coverage_pct64 count tot = Fin v))"
proof (intro conjI impI)
  assume "tot \<le> 0"
  then show "pct64 count tot = Fin 0" "coverage_pct64 count tot = Fin 0"
    by (simp_all add: pct64_def coverage_pct64_def)
next
  assume r: "0 < tot \<and> tot < 2 ^ 53 \<and> \<bar>count\<bar> < 2 ^ 53"
  then show "\<exists>p. pct64 count tot = Fin p
             \<and> \<bar>p - 100 * of_int count / of_int tot\<bar> \<le> \<bar>100 * of_int count / of_int tot\<bar> / 2 ^ 51
             \<and> (p = 0 \<longleftrightarrow> count = 0)"
    using pct64_accuracy [of count tot] by blast
  from r show "\<exists>v. coverage_pct64 count tot = Fin v"
    using coverage_pct64_finite [of count tot] by blast
qed

theorem pct_double_guarded_and_accurate_witness:
  "pct64 7 0 = Fin 0 \<and> coverage_pct64 7 0 = Fin 0
   \<and> (0 :: int) < 100 \<and> (100 :: int) < 2 ^ 53 \<and> \<bar>7 :: int\<bar> < 2 ^ 53
   \<and> pct64 7 100 = Fin (7881299347898369 / 2 ^ 50)
   \<and> \<bar>7881299347898369 / 2 ^ 50 - 100 * 7 / 100 :: real\<bar> \<le> \<bar>100 * 7 / 100\<bar> / 2 ^ 51"
proof -
  have guard: "pct64 7 0 = Fin 0 \<and> coverage_pct64 7 0 = Fin 0"
    using pct_double_guarded_and_accurate [of 0 7] by simp
  have val: "pct64 7 100 = Fin (7881299347898369 / 2 ^ 50)"
    using fl_7_100 fl_7_100_times_100 by (simp add: pct64_def div64_def)
  have "\<exists>p. pct64 7 100 = Fin p
          \<and> \<bar>p - 100 * of_int 7 / of_int 100\<bar> \<le> \<bar>100 * of_int 7 / of_int 100 :: real\<bar> / 2 ^ 51
          \<and> (p = 0 \<longleftrightarrow> (7 :: int) = 0)"
    using pct_double_guarded_and_accurate [of 100 7] by simp
  then have "\<bar>7881299347898369 / 2 ^ 50 - 100 * 7 / 100 :: real\<bar> \<le> \<bar>100 * 7 / 100\<bar> / 2 ^ 51"
    unfolding val by simp
  with guard val show ?thesis
    by simp
qed

text \<open>
  The model in exact arithmetic, which the rendering functions use, and the doubles: the
  two percentages differ by at most the \<open>2 ^ 51\<close>-th part, and one is 0 exactly when the
  other is. The widths of the examples of this theory are the same in doubles. The
  decimal shown on a coverage card can differ: for 3 of 2000 the double is just below 0.15
  and the card shows 0.1, where exact arithmetic gives 0.2.
\<close>

lemma pct64_close_to_pct:
  assumes "\<bar>count\<bar> < 2 ^ 53" and "0 < tot" and "tot < 2 ^ 53"
  shows "\<exists>p e. pct64 count tot = Fin p \<and> pct count tot = Fin e
           \<and> \<bar>p - e\<bar> \<le> \<bar>e\<bar> / 2 ^ 51 \<and> (p = 0 \<longleftrightarrow> e = 0)"
proof -
  obtain p where p: "pct64 count tot = Fin p"
    "\<bar>p - 100 * of_int count / of_int tot\<bar> \<le> \<bar>100 * of_int count / of_int tot\<bar> / 2 ^ 51"
    "p = 0 \<longleftrightarrow> count = 0"
    using pct64_accuracy [OF assms] by blast
  have e: "pct count tot = Fin (100 * of_int count / of_int tot)"
    using assms(2) pct_exact_value [of count tot] by simp
  have "(100 * real_of_int count / real_of_int tot = 0) \<longleftrightarrow> count = 0"
    using assms(2) by simp
  with p e show ?thesis
    by blast
qed

lemma fl_3_2: "fl (3 / 2) = Fin (3 / 2)"
  using fl_eval [of 0 "3 / 2" "3 * 2 ^ 51"] by (simp add: power_int_minus_divide)

lemma fl_150: "fl 150 = Fin 150"
  using fl_eval [of 7 150 "75 * 2 ^ 46"] by (simp add: power_int_minus_divide)

lemma fl_2_5: "fl (2 / 5) = Fin (7205759403792794 / 2 ^ 54)"
  using fl_eval [of "-2" "2 / 5" 7205759403792794] by (simp add: power_int_minus_divide)

lemma fl_2_5_times_100: "fl (7205759403792794 / 2 ^ 54 * 100) = Fin 40"
  using fl_eval [of 5 "7205759403792794 / 2 ^ 54 * 100" "5 * 2 ^ 50"] by (simp add: power_int_minus_divide)

lemma fl_3_5: "fl (3 / 5) = Fin (5404319552844595 / 2 ^ 53)"
  using fl_eval [of "-1" "3 / 5" 5404319552844595] by (simp add: power_int_minus_divide)

lemma fl_3_5_times_100: "fl (5404319552844595 / 2 ^ 53 * 100) = Fin 60"
  using fl_eval [of 5 "5404319552844595 / 2 ^ 53 * 100" "15 * 2 ^ 49"] by (simp add: power_int_minus_divide)

lemma fl_3_2000: "fl (3 / 2000) = Fin (6917529027641082 / 2 ^ 62)"
  using fl_eval [of "-10" "3 / 2000" 6917529027641082] by (simp add: power_int_minus_divide)

lemma fl_3_2000_times_100: "fl (6917529027641082 / 2 ^ 62 * 100) = Fin (5404319552844595 / 2 ^ 55)"
  using fl_eval [of "-3" "6917529027641082 / 2 ^ 62 * 100" 5404319552844595]
  by (simp add: power_int_minus_divide)

lemma fl_1_10: "fl (1 / 10) = Fin (7205759403792794 / 2 ^ 56)"
  using fl_eval [of "-4" "1 / 10" 7205759403792794] by (simp add: power_int_minus_divide)

lemma round_tenth_below_15_hundredths: "round_tenth (5404319552844595 / 2 ^ 55) = 1 / 10"
  by (simp add: round_tenth_def)

lemma coverage_of_3_in_2000:
  "coverage_pct64 3 2000 = Fin (7205759403792794 / 2 ^ 56) \<and> coverage_pct 3 2000 = Fin (2 / 10)"
  using fl_3_2000 fl_3_2000_times_100 fl_1_10 round_tenth_below_15_hundredths
  by (simp add: coverage_pct64_def div64_def coverage_pct_def js_div_def round_tenth_def)

lemma example_widths_in_doubles:
  "pct64 150 100 = Fin 150 \<and> pct64 40 100 = Fin 40 \<and> pct64 60 100 = Fin 60"
  using fl_3_2 fl_150 fl_2_5 fl_2_5_times_100 fl_3_5 fl_3_5_times_100
  by (simp add: pct64_def div64_def)

text \<open>
  The widths that are clamped: the score bar of a row and the bar of a coverage card are
  at most 100.
\<close>

lemma ScoreBar_width_clamped: "ScoreBar_width score = Fin (min 100 score)"
  by (simp add: ScoreBar_width_def)

lemma coverage_width_clamped:
  "\<exists>w. js_min100 (coverage_pct count tot) = Fin w \<and> w \<le> 100"
  by (simp add: coverage_pct_def js_div_def)

text \<open>
  Claim C5 does not hold of the segments of the tier bar: their width is the percentage
  itself, with no \<^verbatim>\<open>Math.min\<close>. For 150 gold agents of a total of 100 the segment is 150
  percent wide on both pages.
\<close>

theorem tier_segment_width_exceeds_100:
  "leaderboard_tier_section (Some over_total_stats)
     = Some ([\<lparr>seg_tier = ''gold'', seg_count = 150, seg_width = Fin 150\<rparr>], [(''gold'', 150)])
   \<and> home_tier_section (Some over_total_stats)
     = Some ([\<lparr>seg_tier = ''gold'', seg_count = 150, seg_width = Fin 150\<rparr>], [(''gold'', 150)])"
  by (simp add: over_total_stats_def render_defs)

subsection \<open>Tier order and the suppression of zero counts\<close>

lemma tier_segments_tiers:
  "map seg_tier (tier_segments tiers td tot)
     = filter (\<lambda>t. pct (count_of td t) tot \<noteq> Fin 0) tiers"
  by (induction tiers) (auto simp: tier_segments_def List.map_filter_simps Let_def)

lemma tier_legend_tiers:
  "map fst (tier_legend tiers td) = filter (\<lambda>t. count_of td t \<noteq> 0) tiers"
  by (induction tiers) (auto simp: tier_legend_def List.map_filter_simps Let_def)



lemma tier_section_Some:
  assumes "tier_section tiers (Some s) = Some (segs, leg)"
  obtains td where "tier_distribution s = Some td" and "td \<noteq> []"
    and "segs = tier_segments tiers td (total_agents s)" and "leg = tier_legend tiers td"
  using assms by (auto simp: tier_section_def split: option.splits if_splits)



text \<open>
  Claim C9, as stated, fails for the coverage cards of the home page. In the statistics
  \<open>scenario_stats\<close> the protocol x402 has the count 0, and the chain base has the count
  0; the card of each is rendered, with the count 0 and a bar of width 0.
\<close>

theorem zero_count_card_is_rendered:
  "count_opt (protocol_counts scenario_stats) ''x402'' = 0
   \<and> protocol_section (Some scenario_stats)
     = Some [\<lparr>card_key = ''https'', card_label = ''HTTPS'', card_count = 50,
               card_pct = Fin 50, card_width = Fin 50\<rparr>,
             \<lparr>card_key = ''x402'', card_label = ''x402'', card_count = 0,
               card_pct = Fin 0, card_width = Fin 0\<rparr>,
             \<lparr>card_key = ''8004'', card_label = ''ERC-8004'', card_count = 0,
               card_pct = Fin 0, card_width = Fin 0\<rparr>,
             \<lparr>card_key = ''a2a'', card_label = ''A2A'', card_count = 0,
               card_pct = Fin 0, card_width = Fin 0\<rparr>]
   \<and> count_opt (chain_distribution scenario_stats) ''base'' = 0
   \<and> chain_section (Some scenario_stats)
     = Some [\<lparr>card_key = ''avalanche'', card_label = ''Avalanche'', card_count = 0,
               card_pct = Fin 0, card_width = Fin 0\<rparr>,
             \<lparr>card_key = ''ethereum'', card_label = ''Ethereum'', card_count = 0,
               card_pct = Fin 0, card_width = Fin 0\<rparr>,
             \<lparr>card_key = ''base'', card_label = ''Base'', card_count = 0,
               card_pct = Fin 0, card_width = Fin 0\<rparr>,
             \<lparr>card_key = ''polygon'', card_label = ''Polygon'', card_count = 7,
               card_pct = Fin 7, card_width = Fin 7\<rparr>]"
  by (simp add: scenario_stats_def render_defs round_tenth_def)

lemma pct_zero_count: "pct 0 tot = Fin 0"
  by (simp add: pct_def js_div_def)

lemma zero_count_no_segment:
  assumes "count_of td t = 0"
  shows "t \<notin> seg_tier ` set (tier_segments tiers td tot)"
proof -
  have "seg_tier ` set (tier_segments tiers td tot) = set (map seg_tier (tier_segments tiers td tot))"
    by simp
  also have "\<dots> = set (filter (\<lambda>u. pct (count_of td u) tot \<noteq> Fin 0) tiers)"
    by (simp only: tier_segments_tiers)
  finally show ?thesis
    using assms by (simp add: pct_zero_count)
qed

lemma zero_count_no_legend_entry:
  assumes "count_of td t = 0"
  shows "t \<notin> fst ` set (tier_legend tiers td)"
proof -
  have "fst ` set (tier_legend tiers td) = set (map fst (tier_legend tiers td))"
    by simp
  also have "\<dots> = set (filter (\<lambda>u. count_of td u \<noteq> 0) tiers)"
    by (simp only: tier_legend_tiers)
  finally show ?thesis
    using assms by simp
qed

lemma filter_buttons_badge:
  assumes "b \<in> set (filter_buttons entries d selected)"
  shows "btn_badge b
           = (if btn_slug b \<noteq> [] \<and> 0 < count_opt d (btn_slug b)
              then Some (count_opt d (btn_slug b)) else None)"
  using assms by (auto simp: filter_buttons_def Let_def)

lemma coverage_pct_zero_count: "coverage_pct 0 tot = Fin 0"
  by (simp add: coverage_pct_def js_div_def round_tenth_def)

lemma coverage_cards_card:
  assumes "crd \<in> set (coverage_cards entries d tot)"
  shows "card_count crd = count_of d (card_key crd)
         \<and> card_pct crd = coverage_pct (card_count crd) tot
         \<and> card_width crd = js_min100 (card_pct crd)"
  using assms by (auto simp: coverage_cards_def Let_def)

lemma coverage_cards_keys: "map card_key (coverage_cards entries d tot) = map fst entries"
  by (induction entries) (auto simp: coverage_cards_def Let_def)

lemma zero_count_card:
  assumes "crd \<in> set (coverage_cards entries d tot)" and "card_count crd = 0"
  shows "card_pct crd = Fin 0 \<and> card_width crd = Fin 0"
  using coverage_cards_card [OF assms(1)] assms(2) by (simp add: coverage_pct_zero_count)

text \<open>
  Claim C9, amended. A tier whose count is 0 has no segment in the tier bar and no entry
  in the legend, on the leaderboard and on the home page; a chain or a category whose
  count is 0 has no badge on its filter button, with or without statistics. The coverage
  cards of the home page are not suppressed: the protocol section and the chain section,
  when rendered, show one card for each of their four keys, whatever its count, with the
  count as its label; a card whose count is 0 shows 0 percent and a bar of width 0. Each
  of these statements stands on its own: none needs another section to be rendered.
\<close>

theorem zero_counts_suppressed_in_tier_bar_and_badges:
  "(leaderboard_tier_section (Some s) = Some (segs, leg)
      \<and> count_opt (tier_distribution s) t = 0
      \<longrightarrow> t \<notin> seg_tier ` set segs \<and> t \<notin> fst ` set leg)
   \<and> (home_tier_section (Some s) = Some (hsegs, hleg)
      \<and> count_opt (tier_distribution s) t = 0
      \<longrightarrow> t \<notin> seg_tier ` set hsegs \<and> t \<notin> fst ` set hleg)
   \<and> (count_opt (case stats st of None \<Rightarrow> None | Some s' \<Rightarrow> chain_distribution s') c = 0
      \<longrightarrow> (\<forall>b \<in> set (chain_buttons st). btn_slug b = c \<longrightarrow> btn_badge b = None))
   \<and> (count_opt (case stats st of None \<Rightarrow> None | Some s' \<Rightarrow> category_counts s') g = 0
      \<longrightarrow> (\<forall>b \<in> set (category_buttons st). btn_slug b = g \<longrightarrow> btn_badge b = None))
   \<and> (protocol_section (Some s) = Some pcards
      \<longrightarrow> map card_key pcards = [''https'', ''x402'', ''8004'', ''a2a'']
          \<and> (\<forall>crd \<in> set pcards.
                card_count crd = count_opt (protocol_counts s) (card_key crd)
                \<and> (card_count crd = 0 \<longrightarrow> card_pct crd = Fin 0 \<and> card_width crd = Fin 0)))
   \<and> (chain_section (Some s) = Some ccards
      \<longrightarrow> map card_key ccards = [''avalanche'', ''ethereum'', ''base'', ''polygon'']
          \<and> (\<forall>crd \<in> set ccards.
                card_count crd = count_opt (chain_distribution s) (card_key crd)
                \<and> (card_count crd = 0 \<longrightarrow> card_pct crd = Fin 0 \<and> card_width crd = Fin 0)))"
proof -
  let ?canon = "[''diamond'', ''platinum'', ''gold'', ''silver'', ''bronze'', ''unranked'']"
  have tiers: "t \<notin> seg_tier ` set xs \<and> t \<notin> fst ` set ys"
    if sec: "tier_section ?canon (Some s) = Some (xs, ys)"
      and zero: "count_opt (tier_distribution s) t = 0" for xs ys
  proof -
    from sec obtain td where td: "tier_distribution s = Some td"
      and xs: "xs = tier_segments ?canon td (total_agents s)"
      and ys: "ys = tier_legend ?canon td"
      by (rule tier_section_Some)
    from zero td have "count_of td t = 0"
      by (simp add: count_opt_def)
    then show ?thesis
      unfolding xs ys by (simp only: zero_count_no_segment zero_count_no_legend_entry simp_thms)
  qed
  have lb: "leaderboard_tier_section (Some s) = Some (segs, leg)
              \<and> count_opt (tier_distribution s) t = 0
            \<longrightarrow> t \<notin> seg_tier ` set segs \<and> t \<notin> fst ` set leg"
    using tiers [of segs leg] by (simp add: leaderboard_tier_section_def TIER_ORDER_def)
  have home: "home_tier_section (Some s) = Some (hsegs, hleg)
                \<and> count_opt (tier_distribution s) t = 0
              \<longrightarrow> t \<notin> seg_tier ` set hsegs \<and> t \<notin> fst ` set hleg"
    using tiers [of hsegs hleg] by (simp add: home_tier_section_def)
  have chain_badge:
    "count_opt (case stats st of None \<Rightarrow> None | Some s' \<Rightarrow> chain_distribution s') c = 0
     \<longrightarrow> (\<forall>b \<in> set (chain_buttons st). btn_slug b = c \<longrightarrow> btn_badge b = None)"
    by (auto simp: chain_buttons_def dest!: filter_buttons_badge)
  have category_badge:
    "count_opt (case stats st of None \<Rightarrow> None | Some s' \<Rightarrow> category_counts s') g = 0
     \<longrightarrow> (\<forall>b \<in> set (category_buttons st). btn_slug b = g \<longrightarrow> btn_badge b = None)"
    by (auto simp: category_buttons_def dest!: filter_buttons_badge)
  have cards: "map card_key xs = map fst entries
        \<and> (\<forall>crd \<in> set xs. card_count crd = count_opt (Some d) (card_key crd)
              \<and> (card_count crd = 0 \<longrightarrow> card_pct crd = Fin 0 \<and> card_width crd = Fin 0))"
    if "xs = coverage_cards entries d tot" for xs entries d tot
    unfolding that
    using coverage_cards_card [of _ entries d tot] zero_count_card [of _ entries d tot]
    by (simp add: coverage_cards_keys count_opt_def)
  have protocol: "protocol_section (Some s) = Some pcards
      \<longrightarrow> map card_key pcards = [''https'', ''x402'', ''8004'', ''a2a'']
          \<and> (\<forall>crd \<in> set pcards.
                card_count crd = count_opt (protocol_counts s) (card_key crd)
                \<and> (card_count crd = 0 \<longrightarrow> card_pct crd = Fin 0 \<and> card_width crd = Fin 0))"
  proof
    assume "protocol_section (Some s) = Some pcards"
    then obtain d where d: "protocol_counts s = Some d"
      and xs: "pcards = coverage_cards PROTOCOLS d (total_agents s)"
      by (auto simp: protocol_section_def split: option.splits if_splits)
    show "map card_key pcards = [''https'', ''x402'', ''8004'', ''a2a'']
          \<and> (\<forall>crd \<in> set pcards.
                card_count crd = count_opt (protocol_counts s) (card_key crd)
                \<and> (card_count crd = 0 \<longrightarrow> card_pct crd = Fin 0 \<and> card_width crd = Fin 0))"
      using cards [OF xs] unfolding d by (simp add: PROTOCOLS_def)
  qed
  have chains: "chain_section (Some s) = Some ccards
      \<longrightarrow> map card_key ccards = [''avalanche'', ''ethereum'', ''base'', ''polygon'']
          \<and> (\<forall>crd \<in> set ccards.
                card_count crd = count_opt (chain_distribution s) (card_key crd)
                \<and> (card_count crd = 0 \<longrightarrow> card_pct crd = Fin 0 \<and> card_width crd = Fin 0))"
  proof
    assume "chain_section (Some s) = Some ccards"
    then obtain d where d: "chain_distribution s = Some d"
      and xs: "ccards = coverage_cards HOME_CHAINS d (total_agents s)"
      by (auto simp: chain_section_def split: option.splits if_splits)
    show "map card_key ccards = [''avalanche'', ''ethereum'', ''base'', ''polygon'']
          \<and> (\<forall>crd \<in> set ccards.
                card_count crd = count_opt (chain_distribution s) (card_key crd)
                \<and> (card_count crd = 0 \<longrightarrow> card_pct crd = Fin 0 \<and> card_width crd = Fin 0))"
      using cards [OF xs] unfolding d by (simp add: HOME_CHAINS_def)
  qed
  from lb home chain_badge category_badge protocol chains show ?thesis
    by (intro conjI)
qed

theorem zero_counts_suppressed_in_tier_bar_and_badges_witness:
  "leaderboard_tier_section (Some scenario_stats)
       = Some ([\<lparr>seg_tier = ''gold'', seg_count = 40, seg_width = Fin 40\<rparr>,
                \<lparr>seg_tier = ''silver'', seg_count = 60, seg_width = Fin 60\<rparr>],
               [(''gold'', 40), (''silver'', 60)])
   \<and> home_tier_section (Some scenario_stats)
       = Some ([\<lparr>seg_tier = ''gold'', seg_count = 40, seg_width = Fin 40\<rparr>,
                \<lparr>seg_tier = ''silver'', seg_count = 60, seg_width = Fin 60\<rparr>],
               [(''gold'', 40), (''silver'', 60)])
   \<and> count_opt (tier_distribution scenario_stats) ''bronze'' = 0
   \<and> ''bronze'' \<notin> fst ` set [(''gold'', 40 :: int), (''silver'', 60)]
   \<and> stats scenario_page = Some scenario_stats
   \<and> count_opt (chain_distribution scenario_stats) ''base'' = 0
   \<and> count_opt (category_counts scenario_stats) ''defi'' = 0
   \<and> map btn_badge (chain_buttons scenario_page) = [None, None, None, None, Some 7]
   \<and> map btn_badge (category_buttons scenario_page)
       = [None, None, Some 2, None, None, None, None]
   \<and> protocol_section (Some scenario_stats)
       = Some (coverage_cards PROTOCOLS [(''https'', 50), (''x402'', 0)] 100)
   \<and> chain_section (Some scenario_stats)
       = Some (coverage_cards HOME_CHAINS [(''polygon'', 7), (''base'', 0)] 100)
   \<and> map card_key (coverage_cards PROTOCOLS [(''https'', 50), (''x402'', 0)] 100)
       = [''https'', ''x402'', ''8004'', ''a2a'']
   \<and> map card_count (coverage_cards PROTOCOLS [(''https'', 50), (''x402'', 0)] 100)
       = [50, 0, 0, 0]
   \<and> map card_width (coverage_cards PROTOCOLS [(''https'', 50), (''x402'', 0)] 100)
       = [Fin 50, Fin 0, Fin 0, Fin 0]"
proof -
  let ?segs = "[\<lparr>seg_tier = ''gold'', seg_count = 40, seg_width = Fin 40\<rparr>,
                \<lparr>seg_tier = ''silver'', seg_count = 60, seg_width = Fin 60\<rparr>]"
  let ?leg = "[(''gold'', 40 :: int), (''silver'', 60)]"
  let ?pcards = "coverage_cards PROTOCOLS [(''https'', 50), (''x402'', 0)] 100"
  let ?ccards = "coverage_cards HOME_CHAINS [(''polygon'', 7), (''base'', 0)] 100"
  have lb: "leaderboard_tier_section (Some scenario_stats) = Some (?segs, ?leg)"
    by (simp add: scenario_stats_def render_defs)
  have home: "home_tier_section (Some scenario_stats) = Some (?segs, ?leg)"
    by (simp add: scenario_stats_def render_defs)
  have tier0: "count_opt (tier_distribution scenario_stats) ''bronze'' = 0"
    by (simp add: scenario_stats_def count_opt_def count_of_def)
  have st: "stats scenario_page = Some scenario_stats"
    by (simp add: scenario_page_def run_defs)
  have chain0: "count_opt (chain_distribution scenario_stats) ''base'' = 0"
    by (simp add: scenario_stats_def count_opt_def count_of_def)
  have cat0: "count_opt (category_counts scenario_stats) ''defi'' = 0"
    by (simp add: scenario_stats_def count_opt_def count_of_def)
  have prot: "protocol_section (Some scenario_stats) = Some ?pcards"
    by (simp add: scenario_stats_def protocol_section_def)
  have chains: "chain_section (Some scenario_stats) = Some ?ccards"
    by (simp add: scenario_stats_def chain_section_def)
  have chain_badges: "map btn_badge (chain_buttons scenario_page) = [None, None, None, None, Some 7]"
    by (simp add: st chain_buttons_def filter_buttons_def CHAINS_def scenario_stats_def
        count_opt_def count_of_def)
  have category_badges: "map btn_badge (category_buttons scenario_page)
      = [None, None, Some 2, None, None, None, None]"
    by (simp add: st category_buttons_def filter_buttons_def CATEGORIES_def scenario_stats_def
        count_opt_def count_of_def)
  have cards: "map card_key ?pcards = [''https'', ''x402'', ''8004'', ''a2a'']"
    "map card_count ?pcards = [50, 0, 0, 0]"
    "map card_width ?pcards = [Fin 50, Fin 0, Fin 0, Fin 0]"
    by (simp_all add: coverage_cards_def PROTOCOLS_def count_of_def coverage_pct_def js_div_def
        round_tenth_def)
  note inst = zero_counts_suppressed_in_tier_bar_and_badges
    [of scenario_stats ?segs ?leg "''bronze''" ?segs ?leg scenario_page "''base''" "''defi''"
      ?pcards ?ccards]
  have "''bronze'' \<notin> fst ` set ?leg"
    using inst lb tier0 by blast
  with lb home tier0 st chain0 cat0 prot chains chain_badges category_badges cards
  show ?thesis
    by (intro conjI)
qed

end
